theory Spec2Isabelle
  imports Complex_Main "HOL-Library.Sublist"
begin

section \<open>Python values handled by json\_to\_yaml.py\<close>

text \<open>
  A Python \<open>str\<close> is a sequence of code points, and \<open>len\<close> counts code points; a string is
  therefore modelled as a list of code-point numbers, not as a list of bytes.
  \<open>lit\<close> turns an ASCII literal of the source into such a list.
\<close>

type_synonym pystr = "nat list"

definition lit :: "string \<Rightarrow> pystr" where
  "lit s = map of_char s"

abbreviation LF :: nat where "LF \<equiv> 10"
abbreviation CR :: nat where "CR \<equiv> 13"

text \<open>
  \<open>LiteralScalarString\<close> and \<open>FoldedScalarString\<close> (ruamel.yaml) are subclasses of \<open>str\<close>:
  the same characters, and a class that tells the emitter which scalar style to use.
  \<open>Plain\<close> is the built-in \<open>str\<close>.
\<close>

datatype style = Plain | LiteralScalar | FoldedScalar

text \<open>
  A float is never computed with; it only travels through \<open>transform\<close>, and can only be
  compared with another number when \<open>dict(n)\<close> uses it as a key. \<open>json.load\<close> yields one
  shared object for \<open>NaN\<close>, which a dict therefore treats as one key.
\<close>

datatype pyfloat = Finite rat | NegZero | PosInf | NegInf | NaN

text \<open>
  A dict keeps its entries in insertion order, so it is an association list. \<open>json.load\<close>
  only builds dicts with \<open>str\<close> keys, but \<open>dict(n)\<close> on a list of pairs can produce other
  hashable keys, so keys are values.
\<close>

datatype pyval =
    PNone
  | PBool bool
  | PInt int
  | PFloat pyfloat
  | PStr style pystr
  | PList "pyval list"
  | PDict "(pyval \<times> pyval) list"

abbreviation str :: "string \<Rightarrow> pyval" where
  "str s \<equiv> PStr Plain (lit s)"

datatype exn = TypeError | AttributeError | ValueError | KeyError

fun ebind :: "exn + 'a \<Rightarrow> ('a \<Rightarrow> exn + 'b) \<Rightarrow> exn + 'b" where
  "ebind (Inl e) f = Inl e"
| "ebind (Inr x) f = f x"

text \<open>A \<open>for\<close> loop that appends one result per element and stops at the first exception.\<close>

fun map_exn :: "('a \<Rightarrow> exn + 'b) \<Rightarrow> 'a list \<Rightarrow> exn + 'b list" where
  "map_exn f [] = Inr []"
| "map_exn f (x # xs) = ebind (f x) (\<lambda>y. ebind (map_exn f xs) (\<lambda>ys. Inr (y # ys)))"

subsection \<open>Dict keys\<close>

text \<open>
  Python's \<open>==\<close> on hashable values: \<open>True == 1 == 1.0\<close>, \<open>-0.0 == 0\<close>, and a \<open>str\<close> subclass
  equals the \<open>str\<close> with the same characters.
\<close>

fun num_key :: "pyval \<Rightarrow> pyfloat option" where
  "num_key (PBool b) = Some (Finite (if b then 1 else 0))"
| "num_key (PInt i) = Some (Finite (of_int i))"
| "num_key (PFloat NegZero) = Some (Finite 0)"
| "num_key (PFloat f) = Some f"
| "num_key _ = None"

fun key_eq :: "pyval \<Rightarrow> pyval \<Rightarrow> bool" where
  "key_eq PNone PNone = True"
| "key_eq (PStr _ s) (PStr _ t) = (s = t)"
| "key_eq a b = (case num_key a of None \<Rightarrow> False | Some x \<Rightarrow> num_key b = Some x)"

fun hashable :: "pyval \<Rightarrow> bool" where
  "hashable (PList _) = False"
| "hashable (PDict _) = False"
| "hashable _ = True"

fun dict_lookup :: "(pyval \<times> pyval) list \<Rightarrow> pyval \<Rightarrow> pyval option" where
  "dict_lookup [] k = None"
| "dict_lookup ((k', v) # d) k = (if key_eq k' k then Some v else dict_lookup d k)"

text \<open>
  \<open>d[k] = v\<close>: an existing key keeps its place (and the key object already stored); a new
  key goes to the end.
\<close>

fun dict_setitem :: "(pyval \<times> pyval) list \<Rightarrow> pyval \<Rightarrow> pyval \<Rightarrow> (pyval \<times> pyval) list" where
  "dict_setitem [] k v = [(k, v)]"
| "dict_setitem ((k', v') # d) k v =
     (if key_eq k' k then (k', v) # d else (k', v') # dict_setitem d k v)"

subsection \<open>Built-in operations the source calls\<close>

text \<open>\<open>x.get(k, default)\<close>: only a dict has \<open>get\<close>.\<close>

fun py_get :: "pyval \<Rightarrow> pyval \<Rightarrow> pyval \<Rightarrow> exn + pyval" where
  "py_get (PDict d) k dflt = Inr (case dict_lookup d k of None \<Rightarrow> dflt | Some v \<Rightarrow> v)"
| "py_get _ k dflt = Inl AttributeError"

text \<open>
  \<open>for x in v\<close>: a list gives its elements, a dict its keys, a string its characters (each a
  one-character \<open>str\<close>); anything else is not iterable.
\<close>

fun py_iter :: "pyval \<Rightarrow> exn + pyval list" where
  "py_iter (PList xs) = Inr xs"
| "py_iter (PDict d) = Inr (map fst d)"
| "py_iter (PStr _ s) = Inr (map (\<lambda>c. PStr Plain [c]) s)"
| "py_iter _ = Inl TypeError"

fun str_eq :: "pystr \<Rightarrow> pyval \<Rightarrow> bool" where
  "str_eq s (PStr _ t) = (s = t)"
| "str_eq s _ = False"

text \<open>
  \<open>s in v\<close> for a string \<open>s\<close>: key membership in a dict, element membership in a list,
  substring test in a string.
\<close>

fun py_in :: "pystr \<Rightarrow> pyval \<Rightarrow> exn + bool" where
  "py_in s (PDict d) = Inr (dict_lookup d (PStr Plain s) \<noteq> None)"
| "py_in s (PList xs) = Inr (list_ex (str_eq s) xs)"
| "py_in s (PStr _ t) = Inr (sublist s t)"
| "py_in s _ = Inl TypeError"

text \<open>\<open>v[s]\<close> for a string \<open>s\<close>.\<close>

fun py_getitem :: "pyval \<Rightarrow> pystr \<Rightarrow> exn + pyval" where
  "py_getitem (PDict d) s =
     (case dict_lookup d (PStr Plain s) of None \<Rightarrow> Inl KeyError | Some v \<Rightarrow> Inr v)"
| "py_getitem _ s = Inl TypeError"

text \<open>
  \<open>dict(n)\<close>: a shallow copy of a dict; otherwise \<open>n\<close> is iterated and every element must
  itself be iterable with exactly two items, a hashable key and a value.
\<close>

fun dict_from_pairs :: "pyval list \<Rightarrow> (pyval \<times> pyval) list \<Rightarrow> exn + (pyval \<times> pyval) list" where
  "dict_from_pairs [] acc = Inr acc"
| "dict_from_pairs (e # es) acc =
     (case py_iter e of
        Inl _ \<Rightarrow> Inl TypeError
      | Inr items \<Rightarrow>
          (case items of
             [k, v] \<Rightarrow> if hashable k then dict_from_pairs es (dict_setitem acc k v)
                       else Inl TypeError
           | _ \<Rightarrow> Inl ValueError))"

fun py_dict :: "pyval \<Rightarrow> exn + (pyval \<times> pyval) list" where
  "py_dict (PDict d) = Inr d"
| "py_dict n = ebind (py_iter n) (\<lambda>items. dict_from_pairs items [])"

text \<open>
  \<open>s.replace(old, new)\<close>: occurrences of \<open>old\<close> are replaced from left to right without
  overlap.
\<close>

function py_replace :: "pystr \<Rightarrow> pystr \<Rightarrow> pystr \<Rightarrow> pystr" where
  "py_replace old new [] = (if old = [] then new else [])"
| "py_replace old new (c # cs) =
     (if old = [] then new @ c # py_replace old new cs
      else if prefix old (c # cs) then new @ py_replace old new (drop (length old) (c # cs))
      else c # py_replace old new cs)"
  by pat_completeness auto
termination
  by (relation "measure (\<lambda>(old, new, s). length s)") auto

text \<open>\<open>s.rstrip(chars)\<close>: drops every trailing character that occurs in \<open>chars\<close>.\<close>

definition py_rstrip :: "pystr \<Rightarrow> pystr \<Rightarrow> pystr" where
  "py_rstrip chars s = rev (dropWhile (\<lambda>c. c \<in> set chars) (rev s))"

section \<open>The functions of json\_to\_yaml.py\<close>

definition is_short_plain_question :: "pystr \<Rightarrow> bool" where
  "is_short_plain_question s =
     (if s = [] then True else (\<not> sublist [LF] s) \<and> length s \<le> 40)"

text \<open>
  Both wrappers compute \<open>text.replace("\r\n", "\n").replace("\r", "\n").rstrip("\n")\<close>;
  a value without \<open>replace\<close> raises AttributeError. The chomping indicator is chosen by the
  emitter from the text (the \<open>fa\<close> attribute is looked up with a default of \<open>None\<close>), so the
  model records the class and the text.
\<close>

fun as_literal_strip :: "pyval \<Rightarrow> exn + pyval" where
  "as_literal_strip (PStr _ text) =
     Inr (PStr LiteralScalar
       (py_rstrip [LF] (py_replace [CR] [LF] (py_replace [CR, LF] [LF] text))))"
| "as_literal_strip _ = Inl AttributeError"

fun as_folded_strip :: "pyval \<Rightarrow> exn + pyval" where
  "as_folded_strip (PStr _ text) =
     Inr (PStr FoldedScalar
       (py_rstrip [LF] (py_replace [CR] [LF] (py_replace [CR, LF] [LF] text))))"
| "as_folded_strip _ = Inl AttributeError"

text \<open>The body of the loop over \<open>data.get("prompts", [])\<close>.\<close>

definition prompt_body :: "pyval \<Rightarrow> exn + pyval" where
  "prompt_body p =
     ebind (py_get p (str ''nodeId'') PNone) (\<lambda>node_id.
     ebind (py_get p (str ''prompt'') (str '''')) (\<lambda>prompt_text.
     ebind (as_literal_strip prompt_text) (\<lambda>styled.
     Inr (PDict [(str ''nodeId'', node_id), (str ''prompt'', styled)]))))"

text \<open>The body of the loop over \<open>g_in.get("nodes", [])\<close>.\<close>

definition node_body :: "pyval \<Rightarrow> exn + pyval" where
  "node_body n =
     ebind (py_dict n) (\<lambda>n2.
       (case (case dict_lookup n2 (str ''question'') of None \<Rightarrow> PNone | Some v \<Rightarrow> v) of
          PStr sty q \<Rightarrow>
            if length q = 0 then Inr (PDict (dict_setitem n2 (str ''question'') (str '''')))
            else if is_short_plain_question q
              then Inr (PDict (dict_setitem n2 (str ''question'') (PStr sty q)))
            else ebind (as_folded_strip (PStr sty q)) (\<lambda>folded.
              Inr (PDict (dict_setitem n2 (str ''question'') folded)))
        | _ \<Rightarrow> Inr (PDict n2)))"

definition transform :: "pyval \<Rightarrow> exn + pyval" where
  "transform data =
     ebind (py_get data (str ''prompts'') (PList [])) (\<lambda>prompts_in.
     ebind (py_iter prompts_in) (\<lambda>ps.
     ebind (map_exn prompt_body ps) (\<lambda>prompts_out.
     ebind (py_get data (str ''graph'') (PDict [])) (\<lambda>g_in.
     ebind (py_in (lit ''startId'') g_in) (\<lambda>has_start.
     ebind (if has_start
            then ebind (py_getitem g_in (lit ''startId'')) (\<lambda>v. Inr [(str ''startId'', v)])
            else Inr []) (\<lambda>g_out.
     ebind (py_get g_in (str ''nodes'') (PList [])) (\<lambda>nodes_in.
     ebind (py_iter nodes_in) (\<lambda>ns.
     ebind (map_exn node_body ns) (\<lambda>nodes_out.
     Inr (PDict [(str ''prompts'', PList prompts_out),
                 (str ''graph'', PDict (g_out @ [(str ''nodes'', PList nodes_out)]))]))))))))))"

section \<open>The command-line driver\<close>











section \<open>Notions of the specification\<close>

text \<open>
  Follows the spec's words, for comparison with the source's two \<open>replace\<close> calls: every
  CRLF and every lone CR becomes one LF.
\<close>

fun eol_to_lf :: "pystr \<Rightarrow> pystr" where
  "eol_to_lf [] = []"
| "eol_to_lf [c] = [if c = CR then LF else c]"
| "eol_to_lf (c # d # cs) =
     (if c = CR \<and> d = LF then LF # eol_to_lf cs
      else if c = CR then LF # eol_to_lf (d # cs)
      else c # eol_to_lf (d # cs))"

text \<open>The expression shared by \<open>as_literal_strip\<close> and \<open>as_folded_strip\<close>.\<close>

abbreviation normalize :: "pystr \<Rightarrow> pystr" where
  "normalize text \<equiv> py_rstrip [LF] (py_replace [CR] [LF] (py_replace [CR, LF] [LF] text))"

text \<open>\<open>d.get(k, default)\<close> on a dict, which cannot raise.\<close>

definition get_or :: "(pyval \<times> pyval) list \<Rightarrow> string \<Rightarrow> pyval \<Rightarrow> pyval" where
  "get_or d k dflt = (case dict_lookup d (str k) of None \<Rightarrow> dflt | Some v \<Rightarrow> v)"

text \<open>
  The documents on which \<open>transform\<close> is shown to return: \<open>prompts\<close>, when present, is a
  list of mappings whose \<open>prompt\<close>, when present, is a string; \<open>graph\<close>, when present, is a
  mapping whose \<open>nodes\<close>, when present, is a list of mappings.
\<close>

fun is_dict :: "pyval \<Rightarrow> bool" where
  "is_dict (PDict _) = True"
| "is_dict _ = False"

fun is_str :: "pyval \<Rightarrow> bool" where
  "is_str (PStr _ _) = True"
| "is_str _ = False"

fun is_list_of :: "(pyval \<Rightarrow> bool) \<Rightarrow> pyval \<Rightarrow> bool" where
  "is_list_of P (PList xs) = list_all P xs"
| "is_list_of P _ = False"

fun prompt_ok :: "pyval \<Rightarrow> bool" where
  "prompt_ok (PDict e) = is_str (get_or e ''prompt'' (str []))"
| "prompt_ok _ = False"

fun graph_ok :: "pyval \<Rightarrow> bool" where
  "graph_ok (PDict g) = is_list_of is_dict (get_or g ''nodes'' (PList []))"
| "graph_ok _ = False"

fun well_shaped :: "pyval \<Rightarrow> bool" where
  "well_shaped (PDict d) =
     (is_list_of prompt_ok (get_or d ''prompts'' (PList []))
      \<and> graph_ok (get_or d ''graph'' (PDict [])))"
| "well_shaped _ = False"

section \<open>An example document\<close>

definition example_prompts :: "pyval list" where
  "example_prompts =
     [PDict [(str ''nodeId'', str ''n1''),
             (str ''prompt'', PStr Plain (lit ''Hello'' @ [CR, LF] @ lit ''World'' @ [LF, LF])),
             (str ''lang'', str ''en'')],
      PDict []]"

definition long_question :: pystr where
  "long_question =
     lit ''This is a much longer question that definitely exceeds forty characters easily''"

definition example_nodes :: "pyval list" where
  "example_nodes =
     [PDict [(str ''id'', str ''n1''), (str ''question'', str ''Start''), (str ''next'', PInt 2)],
      PDict [(str ''id'', str ''n2''), (str ''question'', PStr Plain long_question)],
      PDict [(str ''question'', str []), (str ''id'', str ''n3'')],
      PDict [(str ''question'', PNone)],
      PDict [(str ''id'', str ''n5'')],
      PDict [(str ''question'', PStr Plain (lit ''a'' @ [CR] @ lit ''b''))],
      PDict [(str ''question'', PStr Plain (lit ''a'' @ [LF] @ lit ''b'' @ [LF]))]]"

definition example_graph :: "(pyval \<times> pyval) list" where
  "example_graph = [(str ''startId'', PNone), (str ''nodes'', PList example_nodes)]"

definition example_fields :: "(pyval \<times> pyval) list" where
  "example_fields = [(str ''prompts'', PList example_prompts), (str ''graph'', PDict example_graph)]"

definition example_prompts_out :: "pyval list" where
  "example_prompts_out =
     [PDict [(str ''nodeId'', str ''n1''),
             (str ''prompt'', PStr LiteralScalar (lit ''Hello'' @ [LF] @ lit ''World''))],
      PDict [(str ''nodeId'', PNone), (str ''prompt'', PStr LiteralScalar [])]]"

definition example_nodes_out :: "pyval list" where
  "example_nodes_out =
     [PDict [(str ''id'', str ''n1''), (str ''question'', str ''Start''), (str ''next'', PInt 2)],
      PDict [(str ''id'', str ''n2''), (str ''question'', PStr FoldedScalar long_question)],
      PDict [(str ''question'', str []), (str ''id'', str ''n3'')],
      PDict [(str ''question'', PNone)],
      PDict [(str ''id'', str ''n5'')],
      PDict [(str ''question'', PStr Plain (lit ''a'' @ [CR] @ lit ''b''))],
      PDict [(str ''question'', PStr FoldedScalar (lit ''a'' @ [LF] @ lit ''b''))]]"

definition example_out :: pyval where
  "example_out = PDict
     [(str ''prompts'', PList example_prompts_out),
      (str ''graph'', PDict [(str ''startId'', PNone), (str ''nodes'', PList example_nodes_out)])]"


section \<open>Strings\<close>

lemma lit_eq_iff [simp]: "lit a = lit b \<longleftrightarrow> a = b"
  unfolding lit_def by (simp add: inj_on_def)

lemma lit_Nil [simp]: "lit [] = []"
  by (simp add: lit_def)

lemma lit_is_Nil [simp]: "lit s = [] \<longleftrightarrow> s = []"
  by (simp add: lit_def)

lemma sublist_single: "sublist [c] s \<longleftrightarrow> c \<in> set s"
  by (induction s) (auto simp: sublist_Cons_right)

lemma replace_eol: "py_replace [CR] [LF] (py_replace [CR, LF] [LF] t) = eol_to_lf t"
  by (induction t rule: eol_to_lf.induct) auto

lemma eol_no_CR: "CR \<notin> set (eol_to_lf t)"
  by (induction t rule: eol_to_lf.induct) auto

lemma eol_id: "CR \<notin> set s \<Longrightarrow> eol_to_lf s = s"
  by (induction s rule: eol_to_lf.induct) auto

lemma rstrip_subset: "set (py_rstrip cs s) \<subseteq> set s"
  unfolding py_rstrip_def using set_dropWhileD by fastforce

lemma rstrip_no_suffix: "\<not> suffix [c] (py_rstrip [c] s)"
proof
  assume "suffix [c] (py_rstrip [c] s)"
  then obtain p where "py_rstrip [c] s = p @ [c]" by (auto simp: suffix_def)
  then have "dropWhile (\<lambda>x. x = c) (rev s) = c # rev p"
    unfolding py_rstrip_def by (simp add: rev_swap)
  then show False
    by (metis (full_types) hd_dropWhile list.sel(1) list.distinct(1))
qed

lemma rstrip_decomp: "\<exists>n. py_rstrip [c] s @ replicate n c = s"
proof -
  have "takeWhile (\<lambda>x. x = c) (rev s) = replicate (length (takeWhile (\<lambda>x. x = c) (rev s))) c"
    by (metis (mono_tags, lifting) replicate_eqI set_takeWhileD)
  then obtain n where n: "takeWhile (\<lambda>x. x = c) (rev s) = replicate n c" ..
  have "rev s = takeWhile (\<lambda>x. x = c) (rev s) @ dropWhile (\<lambda>x. x = c) (rev s)" by simp
  then have "s = rev (dropWhile (\<lambda>x. x = c) (rev s)) @ rev (replicate n c)"
    using n by (metis rev_append rev_rev_ident)
  then show ?thesis unfolding py_rstrip_def by (auto intro: exI[of _ n])
qed

lemma rstrip_id: "\<not> suffix [c] s \<Longrightarrow> py_rstrip [c] s = s"
  unfolding py_rstrip_def by (cases s rule: rev_cases) (auto simp: suffix_def)

text \<open>
  Claim C2. For every string \<open>t\<close>, both wrappers return the same text \<open>u\<close>: \<open>u\<close> is \<open>t\<close> with
  every CRLF and every lone CR turned into one LF and then all trailing LFs removed (what
  was removed is a run of LFs, and \<open>u\<close> does not end with LF); \<open>u\<close> contains no CR; and
  normalising \<open>u\<close> again returns \<open>u\<close>.
\<close>

theorem normalize_properties:
  "\<exists>u n. as_literal_strip (PStr sty t) = Inr (PStr LiteralScalar u)
       \<and> as_folded_strip (PStr sty t) = Inr (PStr FoldedScalar u)
       \<and> u = normalize t
       \<and> u @ replicate n LF = eol_to_lf t
       \<and> CR \<notin> set u \<and> \<not> suffix [LF] u
       \<and> normalize u = u
       \<and> as_literal_strip (PStr sty' u) = Inr (PStr LiteralScalar u)
       \<and> as_folded_strip (PStr sty' u) = Inr (PStr FoldedScalar u)"
proof -
  define u where "u = py_rstrip [LF] (eol_to_lf t)"
  obtain n where n: "u @ replicate n LF = eol_to_lf t"
    unfolding u_def using rstrip_decomp by blast
  have cr: "CR \<notin> set u"
    unfolding u_def using rstrip_subset eol_no_CR by blast
  have suf: "\<not> suffix [LF] u"
    unfolding u_def by (rule rstrip_no_suffix)
  have again: "py_rstrip [LF] (eol_to_lf u) = u"
    using cr suf by (simp add: eol_id rstrip_id)
  show ?thesis
    using n cr suf again by (auto simp: replace_eol u_def)
qed

theorem normalize_properties_witness:
  "as_literal_strip (PStr Plain (lit ''Hello'' @ [CR, LF] @ lit ''World'' @ [LF, LF]))
     = Inr (PStr LiteralScalar (lit ''Hello'' @ [LF] @ lit ''World''))
   \<and> (\<exists>u n. as_folded_strip (PStr Plain [CR, CR, LF, 97, CR]) = Inr (PStr FoldedScalar u)
         \<and> u @ replicate n LF = [LF, LF, 97, LF] \<and> CR \<notin> set u \<and> \<not> suffix [LF] u)"
proof -
  have a: "as_literal_strip (PStr Plain (lit ''Hello'' @ [CR, LF] @ lit ''World'' @ [LF, LF]))
     = Inr (PStr LiteralScalar (lit ''Hello'' @ [LF] @ lit ''World''))"
    by (simp add: lit_def py_rstrip_def)
  have e: "eol_to_lf [CR, CR, LF, 97, CR] = [LF, LF, 97, LF]"
    by simp
  show ?thesis
    using a e normalize_properties [of Plain "[CR, CR, LF, 97, CR]" Plain] by metis
qed

section \<open>The structure of a successful run\<close>

lemma ebind_Inr_iff: "ebind m f = Inr y \<longleftrightarrow> (\<exists>x. m = Inr x \<and> f x = Inr y)"
  by (cases m) auto

lemma map_exn_Inr:
  "map_exn f xs = Inr ys \<Longrightarrow> length ys = length xs \<and> (\<forall>i<length xs. f (xs ! i) = Inr (ys ! i))"
proof (induction xs arbitrary: ys)
  case Nil
  then show ?case by simp
next
  case (Cons x xs)
  from Cons.prems obtain y zs where y: "f x = Inr y" and zs: "map_exn f xs = Inr zs"
    and ys: "ys = y # zs"
    by (auto simp: ebind_Inr_iff)
  from Cons.IH[OF zs] y ys show ?case
    by (auto simp: nth_Cons split: nat.splits)
qed

lemma map_exn_total:
  "\<forall>x\<in>set xs. \<exists>y. f x = Inr y \<Longrightarrow> \<exists>ys. map_exn f xs = Inr ys"
  by (induction xs) auto

lemma transform_InrD:
  assumes "transform data = Inr out"
  obtains d g ps ps' ns ns' where
    "data = PDict d"
    "py_iter (get_or d ''prompts'' (PList [])) = Inr ps"
    "map_exn prompt_body ps = Inr ps'"
    "get_or d ''graph'' (PDict []) = PDict g"
    "py_iter (get_or g ''nodes'' (PList [])) = Inr ns"
    "map_exn node_body ns = Inr ns'"
    "out = PDict [(str ''prompts'', PList ps'),
                  (str ''graph'', PDict ((case dict_lookup g (str ''startId'') of
                                           None \<Rightarrow> [] | Some v \<Rightarrow> [(str ''startId'', v)])
                                         @ [(str ''nodes'', PList ns')]))]"
proof -
  from assms obtain d where d: "data = PDict d"
    by (cases data) (auto simp: transform_def)
  from assms d obtain ps ps' g_in has g_out ns ns' where
    1: "py_iter (get_or d ''prompts'' (PList [])) = Inr ps"
    and 2: "map_exn prompt_body ps = Inr ps'"
    and 3: "g_in = get_or d ''graph'' (PDict [])"
    and 4: "py_in (lit ''startId'') g_in = Inr has"
    and 5: "(if has then ebind (py_getitem g_in (lit ''startId'')) (\<lambda>v. Inr [(str ''startId'', v)])
            else Inr []) = Inr g_out"
    and 6: "ebind (py_get g_in (str ''nodes'') (PList [])) py_iter = Inr ns"
    and 7: "map_exn node_body ns = Inr ns'"
    and 8: "out = PDict [(str ''prompts'', PList ps'),
                 (str ''graph'', PDict (g_out @ [(str ''nodes'', PList ns')]))]"
    unfolding transform_def get_or_def by (auto simp: ebind_Inr_iff)
  from 6 obtain g where g: "g_in = PDict g"
    by (cases g_in) (auto simp: ebind_Inr_iff)
  from 6 g have six: "py_iter (get_or g ''nodes'' (PList [])) = Inr ns"
    by (simp add: get_or_def)
  from 4 5 g have five: "g_out = (case dict_lookup g (str ''startId'') of
                                           None \<Rightarrow> [] | Some v \<Rightarrow> [(str ''startId'', v)])"
    by (auto split: if_splits option.splits)
  show thesis
    using that[OF d 1 2 3[symmetric, unfolded g] six 7] 8 five by simp
qed

lemma setitem_same: "dict_lookup d k = Some v \<Longrightarrow> dict_setitem d k v = d"
  by (induction d) (auto split: if_splits)

lemma setitem_keys: "dict_lookup d k = Some v0 \<Longrightarrow> map fst (dict_setitem d k v) = map fst d"
  by (induction d) (auto split: if_splits)

lemma setitem_frame:
  "dict_lookup d k = Some v0 \<Longrightarrow> j < length d \<Longrightarrow> \<not> key_eq (fst (d ! j)) k
     \<Longrightarrow> dict_setitem d k v ! j = d ! j"
proof (induction d arbitrary: j)
  case Nil
  then show ?case by simp
next
  case (Cons a d)
  then show ?case
    by (cases j; cases a) (auto split: if_splits)
qed

lemma node_body_dict:
  "node_body (PDict n) =
     Inr (PDict (case dict_lookup n (str ''question'') of
                   Some (PStr sty q) \<Rightarrow>
                     dict_setitem n (str ''question'')
                       (if length q = 0 then PStr Plain []
                        else if is_short_plain_question q then PStr sty q
                        else PStr FoldedScalar (normalize q))
                 | _ \<Rightarrow> n))"
  by (simp add: node_body_def split: option.splits pyval.splits)

lemma prompt_body_dict:
  "get_or e ''prompt'' (str []) = PStr sty t \<Longrightarrow>
   prompt_body (PDict e) =
     Inr (PDict [(str ''nodeId'', get_or e ''nodeId'' PNone),
                 (str ''prompt'', PStr LiteralScalar (normalize t))])"
  by (simp add: prompt_body_def get_or_def)

lemma prompt_body_InrD:
  assumes "prompt_body p = Inr p'"
  obtains e sty t where "p = PDict e" "get_or e ''prompt'' (str []) = PStr sty t"
    "p' = PDict [(str ''nodeId'', get_or e ''nodeId'' PNone),
                 (str ''prompt'', PStr LiteralScalar (normalize t))]"
proof -
  from assms obtain e where e: "p = PDict e"
    by (cases p) (auto simp: prompt_body_def)
  from assms e obtain sty t where t: "get_or e ''prompt'' (str []) = PStr sty t"
    by (cases "get_or e ''prompt'' (str [])") (auto simp: prompt_body_def get_or_def)
  from assms show thesis
    using that[OF e t] prompt_body_dict[OF t] e by simp
qed

lemma transform_node:
  assumes "transform (PDict d) = Inr out"
    and "dict_lookup d (str ''graph'') = Some (PDict g)"
    and "dict_lookup g (str ''nodes'') = Some (PList ns)"
    and "i < length ns"
  shows "\<exists>ps st ns'. out = PDict [(str ''prompts'', PList ps),
                                  (str ''graph'', PDict (st @ [(str ''nodes'', PList ns')]))]
           \<and> length ns' = length ns \<and> node_body (ns ! i) = Inr (ns' ! i)"
proof -
  from assms(1) obtain d' g' ps ps' ms ms' where
    a: "PDict d = PDict d'" "get_or d' ''graph'' (PDict []) = PDict g'"
      "py_iter (get_or g' ''nodes'' (PList [])) = Inr ms" "map_exn node_body ms = Inr ms'"
      "out = PDict [(str ''prompts'', PList ps'),
                  (str ''graph'', PDict ((case dict_lookup g' (str ''startId'') of
                                           None \<Rightarrow> [] | Some v \<Rightarrow> [(str ''startId'', v)])
                                         @ [(str ''nodes'', PList ms')]))]"
    by (rule transform_InrD)
  from a(1,2) assms(2) have g: "g' = g" by (simp add: get_or_def)
  from a(3) g assms(3) have ms: "ms = ns" by (simp add: get_or_def)
  from map_exn_Inr[OF a(4)] ms assms(4) a(5) show ?thesis by blast
qed

lemma transform_prompt:
  assumes "transform (PDict d) = Inr out"
    and "dict_lookup d (str ''prompts'') = Some (PList ps)"
    and "i < length ps"
  shows "\<exists>ps' g. out = PDict [(str ''prompts'', PList ps'), (str ''graph'', g)]
           \<and> length ps' = length ps \<and> prompt_body (ps ! i) = Inr (ps' ! i)"
proof -
  from assms(1) obtain d' qs qs' where
    a: "PDict d = PDict d'" "py_iter (get_or d' ''prompts'' (PList [])) = Inr qs"
      "map_exn prompt_body qs = Inr qs'"
      "\<exists>g. out = PDict [(str ''prompts'', PList qs'), (str ''graph'', g)]"
    by (rule transform_InrD) blast
  from a(1,2) assms(2) have qs: "qs = ps" by (simp add: get_or_def)
  from map_exn_Inr[OF a(3)] qs assms(3) a(4) show ?thesis by blast
qed

section \<open>The claims about transform\<close>

lemma short_plain_iff:
  "is_short_plain_question s \<longleftrightarrow> s = [] \<or> (LF \<notin> set s \<and> length s \<le> 40)"
  by (simp add: is_short_plain_question_def sublist_single)

lemma example_transform: "transform (PDict example_fields) = Inr example_out"
  by (simp add: example_fields_def example_graph_def example_nodes_def example_prompts_def
        example_out_def example_nodes_out_def example_prompts_out_def long_question_def
        transform_def prompt_body_def node_body_def
        is_short_plain_question_def sublist_single py_rstrip_def lit_def)

lemma example_graph_lookup: "dict_lookup example_fields (str ''graph'') = Some (PDict example_graph)"
  by (simp add: example_fields_def)

lemma example_nodes_lookup: "dict_lookup example_graph (str ''nodes'') = Some (PList example_nodes)"
  by (simp add: example_graph_def)

lemma example_prompts_lookup:
  "dict_lookup example_fields (str ''prompts'') = Some (PList example_prompts)"
  by (simp add: example_fields_def)

text \<open>
  Claim C1. When \<open>transform\<close> returns, the output has one node per input node, and the node
  at position \<open>i\<close> is the input node with its \<open>question\<close> entry set as follows when the
  value is a string \<open>q\<close>: the plain empty string when \<open>q\<close> has length 0, \<open>q\<close> itself (the
  same object, so a plain \<open>str\<close> stays plain) when \<open>is_short_plain_question q\<close>, and
  otherwise the normalised text as a \<open>FoldedScalarString\<close>. When the key is absent or
  its value is not a string (for instance \<open>None\<close>), the node is passed through as it is.
\<close>

theorem question_classification:
  assumes "transform (PDict d) = Inr out"
    and "dict_lookup d (str ''graph'') = Some (PDict g)"
    and "dict_lookup g (str ''nodes'') = Some (PList ns)"
    and "i < length ns" and "ns ! i = PDict n"
  shows "\<exists>ps st ns'.
           out = PDict [(str ''prompts'', PList ps),
                        (str ''graph'', PDict (st @ [(str ''nodes'', PList ns')]))]
         \<and> length ns' = length ns
         \<and> ns' ! i =
             PDict (case dict_lookup n (str ''question'') of
                      Some (PStr sty q) \<Rightarrow>
                        dict_setitem n (str ''question'')
                          (if length q = 0 then PStr Plain []
                           else if is_short_plain_question q then PStr sty q
                           else PStr FoldedScalar (normalize q))
                    | _ \<Rightarrow> n)"
  using transform_node[OF assms(1-4)] assms(5) node_body_dict[of n] by auto

theorem question_classification_witness:
  "transform (PDict example_fields) = Inr example_out
   \<and> (\<exists>ps st ns'.
         example_out = PDict [(str ''prompts'', PList ps),
                              (str ''graph'', PDict (st @ [(str ''nodes'', PList ns')]))]
       \<and> length ns' = length example_nodes
       \<and> ns' ! 1 = PDict [(str ''id'', str ''n2''),
                          (str ''question'', PStr FoldedScalar long_question)])"
proof -
  have i: "1 < length example_nodes"
    by (simp add: example_nodes_def)
  have n: "example_nodes ! 1 = PDict [(str ''id'', str ''n2''), (str ''question'', PStr Plain long_question)]"
    by (simp add: example_nodes_def)
  have q: "\<not> is_short_plain_question long_question" "normalize long_question = long_question"
    "length long_question \<noteq> 0"
    by (simp_all add: short_plain_iff py_rstrip_def long_question_def lit_def)
  show ?thesis
    using question_classification[OF example_transform example_graph_lookup example_nodes_lookup i n]
      example_transform q
    by simp
qed

text \<open>
  Claim C3. \<open>is_short_plain_question s\<close> holds exactly when \<open>s\<close> is empty, or contains no
  LF and has at most 40 characters. So a node whose question has exactly 40 characters and
  no LF keeps it as a plain string, and one whose question has 41 characters, or contains
  an LF, gets the folded scalar.
\<close>

theorem short_plain_threshold:
  "(is_short_plain_question s \<longleftrightarrow> s = [] \<or> (LF \<notin> set s \<and> length s \<le> 40))
   \<and> (dict_lookup n (str ''question'') = Some (PStr Plain q) \<longrightarrow>
        (length q = 40 \<and> LF \<notin> set q \<longrightarrow>
           node_body (PDict n) = Inr (PDict (dict_setitem n (str ''question'') (PStr Plain q))))
      \<and> (length q = 41 \<or> LF \<in> set q \<longrightarrow>
           node_body (PDict n) =
             Inr (PDict (dict_setitem n (str ''question'') (PStr FoldedScalar (normalize q))))))"
proof -
  have a: "is_short_plain_question s \<longleftrightarrow> s = [] \<or> (LF \<notin> set s \<and> length s \<le> 40)"
    by (rule short_plain_iff)
  have b: "node_body (PDict n) = Inr (PDict (dict_setitem n (str ''question'') (PStr Plain q)))"
    if "dict_lookup n (str ''question'') = Some (PStr Plain q)" "length q = 40" "LF \<notin> set q"
    using that by (simp add: node_body_dict short_plain_iff)
  have c: "node_body (PDict n) =
             Inr (PDict (dict_setitem n (str ''question'') (PStr FoldedScalar (normalize q))))"
    if "dict_lookup n (str ''question'') = Some (PStr Plain q)" "length q = 41 \<or> LF \<in> set q"
    using that by (auto simp: node_body_dict short_plain_iff)
  from a b c show ?thesis by blast
qed

theorem short_plain_threshold_witness:
  "is_short_plain_question (replicate 40 97)
   \<and> \<not> is_short_plain_question (replicate 41 97)
   \<and> \<not> is_short_plain_question [97, LF, 98]
   \<and> node_body (PDict [(str ''question'', PStr Plain (replicate 40 97))])
       = Inr (PDict [(str ''question'', PStr Plain (replicate 40 97))])
   \<and> node_body (PDict [(str ''question'', PStr Plain (replicate 41 97))])
       = Inr (PDict [(str ''question'', PStr FoldedScalar (normalize (replicate 41 97)))])
   \<and> node_body (PDict [(str ''question'', PStr Plain [97, LF, 98])])
       = Inr (PDict [(str ''question'', PStr FoldedScalar [97, LF, 98])])"
proof -
  have n: "normalize [97, LF, 98] = [97, LF, 98]"
    by (simp add: py_rstrip_def)
  show ?thesis
    using short_plain_threshold[of "replicate 40 97" "[(str ''question'', PStr Plain (replicate 40 97))]" "replicate 40 97"]
      short_plain_threshold[of "replicate 41 97" "[(str ''question'', PStr Plain (replicate 41 97))]" "replicate 41 97"]
      short_plain_threshold[of "[97, LF, 98]" "[(str ''question'', PStr Plain [97, LF, 98])]" "[97, LF, 98]"]
      n
    by simp
qed

text \<open>
  Claim C4. When \<open>transform\<close> returns, every element of the input list \<open>prompts\<close> is a
  mapping whose \<open>prompt\<close> (the empty string when the key is absent) is a string \<open>t\<close>, and
  the output element at the same position is the mapping of \<open>nodeId\<close> to the input's
  \<open>nodeId\<close> (\<open>None\<close> when absent) and of \<open>prompt\<close> to the normalised \<open>t\<close> as a
  \<open>LiteralScalarString\<close>, whose text does not end with LF (so the block is emitted with the
  strip indicator).
\<close>

theorem prompt_pass:
  assumes "transform (PDict d) = Inr out"
    and "dict_lookup d (str ''prompts'') = Some (PList ps)"
    and "i < length ps"
  shows "\<exists>e sty t ps' g.
           ps ! i = PDict e
         \<and> get_or e ''prompt'' (str []) = PStr sty t
         \<and> out = PDict [(str ''prompts'', PList ps'), (str ''graph'', g)]
         \<and> length ps' = length ps
         \<and> ps' ! i = PDict [(str ''nodeId'', get_or e ''nodeId'' PNone),
                            (str ''prompt'', PStr LiteralScalar (normalize t))]
         \<and> \<not> suffix [LF] (normalize t)"
proof -
  from transform_prompt[OF assms] obtain ps' g where
    o: "out = PDict [(str ''prompts'', PList ps'), (str ''graph'', g)]"
    and l: "length ps' = length ps" and b: "prompt_body (ps ! i) = Inr (ps' ! i)"
    by blast
  from b obtain e sty t where "ps ! i = PDict e" "get_or e ''prompt'' (str []) = PStr sty t"
    "ps' ! i = PDict [(str ''nodeId'', get_or e ''nodeId'' PNone),
                      (str ''prompt'', PStr LiteralScalar (normalize t))]"
    by (rule prompt_body_InrD)
  with o l show ?thesis
    using rstrip_no_suffix by blast
qed

theorem prompt_pass_witness:
  "transform (PDict example_fields) = Inr example_out
   \<and> (\<exists>ps' g. example_out = PDict [(str ''prompts'', PList ps'), (str ''graph'', g)]
        \<and> length ps' = length example_prompts
        \<and> ps' ! 0 = PDict [(str ''nodeId'', str ''n1''),
                           (str ''prompt'', PStr LiteralScalar (lit ''Hello'' @ [LF] @ lit ''World''))]
        \<and> ps' ! 1 = PDict [(str ''nodeId'', PNone), (str ''prompt'', PStr LiteralScalar [])])"
proof -
  have i: "0 < length example_prompts" "1 < length example_prompts"
    by (simp_all add: example_prompts_def)
  show ?thesis
    using prompt_pass[OF example_transform example_prompts_lookup i(1)]
      prompt_pass[OF example_transform example_prompts_lookup i(2)] example_transform
    by (simp add: example_out_def example_prompts_out_def example_prompts_def)
qed

text \<open>
  Claim C5, as stated, fails: \<open>transform\<close> is not total on mappings, and a value that
  is present and is not a list is not replaced by the empty list. \<open>{"prompts": null}\<close>
  raises TypeError, \<open>{"prompts": "abc"}\<close> raises AttributeError and
  \<open>{"graph": {"nodes": 7}}\<close> raises TypeError; so do a prompt that is not a mapping, a
  \<open>prompt\<close> that is not a string, a \<open>graph\<close> that is not a mapping and a node that is not
  a mapping.
\<close>

theorem transform_non_list_counterexample:
  "transform (PDict [(str ''prompts'', PNone)]) = Inl TypeError
   \<and> transform (PDict [(str ''prompts'', str ''abc'')]) = Inl AttributeError
   \<and> transform (PDict [(str ''graph'', PDict [(str ''nodes'', PInt 7)])]) = Inl TypeError
   \<and> transform (PDict [(str ''prompts'', PList [PInt 1])]) = Inl AttributeError
   \<and> transform (PDict [(str ''prompts'', PList [PDict [(str ''prompt'', PNone)]])])
       = Inl AttributeError
   \<and> transform (PDict [(str ''graph'', PNone)]) = Inl TypeError
   \<and> transform (PDict [(str ''graph'', PDict [(str ''nodes'', PList [PInt 1])])]) = Inl TypeError"
  by (simp add: transform_def prompt_body_def node_body_def lit_def)

lemma prompt_ok_body: "prompt_ok p \<Longrightarrow> \<exists>y. prompt_body p = Inr y"
proof (cases p)
  case (PDict e)
  assume "prompt_ok p"
  with PDict obtain sty t where "get_or e ''prompt'' (str []) = PStr sty t"
    by (cases "get_or e ''prompt'' (str [])") auto
  from prompt_body_dict[OF this] PDict show ?thesis by simp
qed auto

lemma is_dict_body: "is_dict n \<Longrightarrow> \<exists>y. node_body n = Inr y"
  by (cases n) (simp_all add: node_body_dict)

lemma well_shaped_returns:
  assumes "well_shaped data"
  shows "\<exists>out. transform data = Inr out"
proof -
  from assms obtain d where d: "data = PDict d"
    by (cases data) auto
  from assms d obtain ps where ps: "get_or d ''prompts'' (PList []) = PList ps"
    and pok: "list_all prompt_ok ps"
    by (cases "get_or d ''prompts'' (PList [])") auto
  from assms d obtain g where g: "get_or d ''graph'' (PDict []) = PDict g"
    and gok: "graph_ok (PDict g)"
    by (cases "get_or d ''graph'' (PDict [])") auto
  from gok obtain ns where ns: "get_or g ''nodes'' (PList []) = PList ns"
    and nok: "list_all is_dict ns"
    by (cases "get_or g ''nodes'' (PList [])") auto
  from pok obtain ps' where ps': "map_exn prompt_body ps = Inr ps'"
    using map_exn_total[of ps prompt_body] prompt_ok_body by (auto simp: list_all_iff)
  from nok obtain ns' where ns': "map_exn node_body ns = Inr ns'"
    using map_exn_total[of ns node_body] is_dict_body by (auto simp: list_all_iff)
  have 1: "py_get (PDict d) (str ''prompts'') (PList []) = Inr (PList ps)"
    using ps by (simp add: get_or_def)
  have 2: "py_get (PDict d) (str ''graph'') (PDict []) = Inr (PDict g)"
    using g by (simp add: get_or_def)
  have 3: "py_get (PDict g) (str ''nodes'') (PList []) = Inr (PList ns)"
    using ns by (simp add: get_or_def)
  obtain st where st: "ebind (py_in (lit ''startId'') (PDict g)) (\<lambda>has_start.
              ebind (if has_start
              then ebind (py_getitem (PDict g) (lit ''startId'')) (\<lambda>v. Inr [(str ''startId'', v)])
              else Inr []) k) = k st" for k :: "(pyval \<times> pyval) list \<Rightarrow> exn + pyval"
    by (cases "dict_lookup g (str ''startId'')") auto
  show ?thesis
    unfolding d transform_def 1 2 ebind.simps py_iter.simps ps' st 3 ns'
    by simp
qed

lemma key_eq_str: "key_eq k (PStr s a) \<longleftrightarrow> (\<exists>s0. k = PStr s0 a)"
proof (cases k)
  case (PFloat f)
  then show ?thesis by (cases f) simp_all
qed auto

lemma lookup_append:
  "dict_lookup (d @ e) k = (case dict_lookup d k of None \<Rightarrow> dict_lookup e k | Some v \<Rightarrow> Some v)"
  by (induction d) auto

lemma lookup_setitem_str:
  "dict_lookup (dict_setitem d (PStr s a) v) (PStr s' b) =
     (if a = b then Some v else dict_lookup d (PStr s' b))"
proof (induction d)
  case Nil
  then show ?case by simp
next
  case (Cons p d)
  obtain k0 v0 where p: "p = (k0, v0)" by (cases p)
  show ?case
  proof (cases "key_eq k0 (PStr s a)")
    case True
    then obtain s0 where "k0 = PStr s0 a" by (auto simp: key_eq_str)
    with p show ?thesis by simp
  next
    case False
    with p Cons show ?thesis by (auto simp: key_eq_str)
  qed
qed

lemma transform_cong:
  assumes "get_or d ''prompts'' (PList []) = get_or d' ''prompts'' (PList [])"
    and "get_or d ''graph'' (PDict []) = PDict g"
    and "get_or d' ''graph'' (PDict []) = PDict g'"
    and "dict_lookup g (str ''startId'') = dict_lookup g' (str ''startId'')"
    and "get_or g ''nodes'' (PList []) = get_or g' ''nodes'' (PList [])"
  shows "transform (PDict d) = transform (PDict d')"
proof -
  have 1: "py_get (PDict d) (str ''prompts'') (PList []) =
           py_get (PDict d') (str ''prompts'') (PList [])"
    using assms(1) by (simp add: get_or_def)
  have 2: "py_get (PDict d) (str ''graph'') (PDict []) = Inr (PDict g)"
    "py_get (PDict d') (str ''graph'') (PDict []) = Inr (PDict g')"
    using assms(2,3) by (simp_all add: get_or_def)
  have 3: "py_in (lit ''startId'') (PDict g) = py_in (lit ''startId'') (PDict g')"
    "py_getitem (PDict g) (lit ''startId'') = py_getitem (PDict g') (lit ''startId'')"
    using assms(4) by simp_all
  have 4: "py_get (PDict g) (str ''nodes'') (PList []) = py_get (PDict g') (str ''nodes'') (PList [])"
    using assms(5) by (simp add: get_or_def)
  show ?thesis
    unfolding transform_def 1 2 ebind.simps 3 4 ..
qed

text \<open>
  Claim C5, amended. \<open>transform\<close> returns on every mapping in which \<open>prompts\<close>, when
  present, is a list of mappings whose \<open>prompt\<close>, when present, is a string, and \<open>graph\<close>,
  when present, is a mapping whose \<open>nodes\<close>, when present, is a list of mappings. An absent
  \<open>prompts\<close> or \<open>nodes\<close> is treated as the empty list, and an absent \<open>graph\<close> as the empty
  mapping: \<open>transform\<close> gives what it gives when the key is added with that value.
\<close>

theorem transform_total_and_defaults:
  "(well_shaped data \<longrightarrow> (\<exists>out. transform data = Inr out))
   \<and> (dict_lookup d (str ''prompts'') = None \<longrightarrow>
        transform (PDict d) = transform (PDict (d @ [(str ''prompts'', PList [])])))
   \<and> (dict_lookup d (str ''graph'') = None \<longrightarrow>
        transform (PDict d) = transform (PDict (d @ [(str ''graph'', PDict [])])))
   \<and> (dict_lookup d (str ''graph'') = Some (PDict g) \<and> dict_lookup g (str ''nodes'') = None \<longrightarrow>
        transform (PDict d) =
          transform (PDict (dict_setitem d (str ''graph'')
                            (PDict (g @ [(str ''nodes'', PList [])])))))"
proof (intro conjI impI)
  assume "well_shaped data"
  then show "\<exists>out. transform data = Inr out"
    by (rule well_shaped_returns)
next
  assume a: "dict_lookup d (str ''prompts'') = None"
  show "transform (PDict d) = transform (PDict (d @ [(str ''prompts'', PList [])]))"
    using a by (simp add: transform_def lookup_append split: option.splits)
next
  assume a: "dict_lookup d (str ''graph'') = None"
  show "transform (PDict d) = transform (PDict (d @ [(str ''graph'', PDict [])]))"
    using a by (simp add: transform_def lookup_append split: option.splits)
next
  assume a: "dict_lookup d (str ''graph'') = Some (PDict g) \<and> dict_lookup g (str ''nodes'') = None"
  let ?g' = "g @ [(str ''nodes'', PList [])]"
  let ?d' = "dict_setitem d (str ''graph'') (PDict ?g')"
  show "transform (PDict d) = transform (PDict ?d')"
  proof (rule transform_cong[where g = g and g' = ?g'])
    show "get_or d ''prompts'' (PList []) = get_or ?d' ''prompts'' (PList [])"
      by (simp add: get_or_def lookup_setitem_str)
    show "get_or d ''graph'' (PDict []) = PDict g"
      using a by (simp add: get_or_def)
    show "get_or ?d' ''graph'' (PDict []) = PDict ?g'"
      by (simp add: get_or_def lookup_setitem_str)
    show "dict_lookup g (str ''startId'') = dict_lookup ?g' (str ''startId'')"
      by (simp add: lookup_append split: option.splits)
    show "get_or g ''nodes'' (PList []) = get_or ?g' ''nodes'' (PList [])"
      using a by (simp add: get_or_def lookup_append)
  qed
qed

theorem transform_total_and_defaults_witness:
  "well_shaped (PDict []) \<and> well_shaped (PDict example_fields)
   \<and> (\<exists>out. transform (PDict example_fields) = Inr out)
   \<and> transform (PDict []) = transform (PDict [(str ''prompts'', PList [])])
   \<and> transform (PDict []) = transform (PDict [(str ''graph'', PDict [])])
   \<and> transform (PDict [(str ''graph'', PDict [(str ''startId'', PInt 1)])])
       = transform (PDict [(str ''graph'', PDict [(str ''startId'', PInt 1), (str ''nodes'', PList [])])])
   \<and> transform (PDict []) =
       Inr (PDict [(str ''prompts'', PList []), (str ''graph'', PDict [(str ''nodes'', PList [])])])"
proof -
  have a: "well_shaped (PDict [])"
    by (simp add: get_or_def)
  have b: "well_shaped (PDict example_fields)"
    by (simp add: get_or_def example_fields_def example_graph_def example_nodes_def
          example_prompts_def)
  have c: "transform (PDict []) =
       Inr (PDict [(str ''prompts'', PList []), (str ''graph'', PDict [(str ''nodes'', PList [])])])"
    by (simp add: transform_def)
  have e: "\<exists>out. transform (PDict example_fields) = Inr out"
    using transform_total_and_defaults[of "PDict example_fields"] b by simp
  have p: "transform (PDict []) = transform (PDict [(str ''prompts'', PList [])])"
    using transform_total_and_defaults[of PNone "[]", THEN conjunct2, THEN conjunct1] by simp
  have g: "transform (PDict []) = transform (PDict [(str ''graph'', PDict [])])"
    using transform_total_and_defaults[of PNone "[]", THEN conjunct2, THEN conjunct2, THEN conjunct1]
    by simp
  have n: "transform (PDict [(str ''graph'', PDict [(str ''startId'', PInt 1)])])
       = transform (PDict [(str ''graph'', PDict [(str ''startId'', PInt 1), (str ''nodes'', PList [])])])"
    using transform_total_and_defaults[of PNone "[(str ''graph'', PDict [(str ''startId'', PInt 1)])]"
        "[(str ''startId'', PInt 1)]", THEN conjunct2, THEN conjunct2, THEN conjunct2]
    by simp
  from a b e p g n c show ?thesis by (intro conjI)
qed


lemma node_body_frame:
  "\<exists>n'. node_body (PDict n) = Inr (PDict n')
      \<and> map fst n' = map fst n
      \<and> (\<forall>j<length n. \<not> key_eq (fst (n ! j)) (str ''question'') \<longrightarrow> n' ! j = n ! j)
      \<and> (dict_lookup n (str ''question'') = None \<longrightarrow> n' = n)"
proof (cases "dict_lookup n (str ''question'')")
  case None
  then have "node_body (PDict n) = Inr (PDict n)"
    by (simp add: node_body_dict)
  then show ?thesis by blast
next
  case (Some v)
  show ?thesis
  proof (cases "is_str v")
    case False
    with Some have "node_body (PDict n) = Inr (PDict n)"
      by (cases v) (simp_all add: node_body_dict)
    then show ?thesis by blast
  next
    case True
    then obtain sty q where v: "v = PStr sty q"
      by (cases v) simp_all
    define w where "w = (if length q = 0 then PStr Plain []
                        else if is_short_plain_question q then PStr sty q
                        else PStr FoldedScalar (normalize q))"
    have b: "node_body (PDict n) = Inr (PDict (dict_setitem n (str ''question'') w))"
      using Some v by (simp add: node_body_dict w_def)
    have k: "map fst (dict_setitem n (str ''question'') w) = map fst n"
      using Some by (rule setitem_keys)
    have f: "\<forall>j<length n. \<not> key_eq (fst (n ! j)) (str ''question'')
               \<longrightarrow> dict_setitem n (str ''question'') w ! j = n ! j"
      using setitem_frame[OF Some] by blast
    show ?thesis
      apply (rule exI[of _ "dict_setitem n (str ''question'') w"])
      using b k f Some by simp
  qed
qed

text \<open>
  Claim C6. When \<open>transform\<close> returns, the output node at the position of an input node
  that is a mapping has the same keys in the same order, every entry whose key is not
  \<open>question\<close> is the input's entry, and a node without a \<open>question\<close> key is emitted as it
  is (so without a \<open>question\<close> key).
\<close>

theorem node_frame:
  assumes "transform (PDict d) = Inr out"
    and "dict_lookup d (str ''graph'') = Some (PDict g)"
    and "dict_lookup g (str ''nodes'') = Some (PList ns)"
    and "i < length ns" and "ns ! i = PDict n"
  shows "\<exists>ps st ns' n'.
           out = PDict [(str ''prompts'', PList ps),
                        (str ''graph'', PDict (st @ [(str ''nodes'', PList ns')]))]
         \<and> length ns' = length ns
         \<and> ns' ! i = PDict n'
         \<and> map fst n' = map fst n
         \<and> (\<forall>j<length n. \<not> key_eq (fst (n ! j)) (str ''question'') \<longrightarrow> n' ! j = n ! j)
         \<and> (dict_lookup n (str ''question'') = None \<longrightarrow> n' = n)"
proof -
  from node_body_frame[of n] obtain n' where
    h: "node_body (PDict n) = Inr (PDict n')
      \<and> map fst n' = map fst n
      \<and> (\<forall>j<length n. \<not> key_eq (fst (n ! j)) (str ''question'') \<longrightarrow> n' ! j = n ! j)
      \<and> (dict_lookup n (str ''question'') = None \<longrightarrow> n' = n)" ..
  from transform_node[OF assms(1-4)] obtain ps st ns' where
    o: "out = PDict [(str ''prompts'', PList ps),
                        (str ''graph'', PDict (st @ [(str ''nodes'', PList ns')]))]
        \<and> length ns' = length ns \<and> node_body (ns ! i) = Inr (ns' ! i)"
    by (elim exE)
  from o h assms(5) have e: "ns' ! i = PDict n'"
    by simp
  show ?thesis
    apply (rule exI[of _ ps], rule exI[of _ st], rule exI[of _ ns'], rule exI[of _ n'])
    using o h e by simp
qed

theorem node_frame_witness:
  "transform (PDict example_fields) = Inr example_out
   \<and> (\<exists>ps st ns' n'.
         example_out = PDict [(str ''prompts'', PList ps),
                              (str ''graph'', PDict (st @ [(str ''nodes'', PList ns')]))]
       \<and> ns' ! 0 = PDict n'
       \<and> map fst n' = [str ''id'', str ''question'', str ''next'']
       \<and> n' ! 0 = (str ''id'', str ''n1'') \<and> n' ! 2 = (str ''next'', PInt 2))
   \<and> (\<exists>ps st ns'.
         example_out = PDict [(str ''prompts'', PList ps),
                              (str ''graph'', PDict (st @ [(str ''nodes'', PList ns')]))]
       \<and> ns' ! 4 = PDict [(str ''id'', str ''n5'')])"
proof -
  have i: "0 < length example_nodes" "4 < length example_nodes"
    by (simp_all add: example_nodes_def)
  have n: "example_nodes ! 0 = PDict [(str ''id'', str ''n1''), (str ''question'', str ''Start''),
                                      (str ''next'', PInt 2)]"
    "example_nodes ! 4 = PDict [(str ''id'', str ''n5'')]"
    by (simp_all add: example_nodes_def)
  from node_frame[OF example_transform example_graph_lookup example_nodes_lookup i(1) n(1)]
  obtain ps st ns' n' where
    o: "example_out = PDict [(str ''prompts'', PList ps),
                             (str ''graph'', PDict (st @ [(str ''nodes'', PList ns')]))]"
    and e: "ns' ! 0 = PDict n'"
    and k: "map fst n' = map fst [(str ''id'', str ''n1''), (str ''question'', str ''Start''),
                                  (str ''next'', PInt 2)]"
    and f: "\<forall>j<length [(str ''id'', str ''n1''), (str ''question'', str ''Start''),
                          (str ''next'', PInt 2)].
              \<not> key_eq (fst ([(str ''id'', str ''n1''), (str ''question'', str ''Start''),
                                (str ''next'', PInt 2)] ! j)) (str ''question'')
              \<longrightarrow> n' ! j = [(str ''id'', str ''n1''), (str ''question'', str ''Start''),
                              (str ''next'', PInt 2)] ! j"
    by (elim exE conjE)
  from f have f0: "n' ! 0 = (str ''id'', str ''n1'')"
    by (drule_tac x = 0 in spec) simp
  from f have f2: "n' ! 2 = (str ''next'', PInt 2)"
    by (drule_tac x = 2 in spec) simp
  have a: "\<exists>ps st ns' n'.
         example_out = PDict [(str ''prompts'', PList ps),
                              (str ''graph'', PDict (st @ [(str ''nodes'', PList ns')]))]
       \<and> ns' ! 0 = PDict n'
       \<and> map fst n' = [str ''id'', str ''question'', str ''next'']
       \<and> n' ! 0 = (str ''id'', str ''n1'') \<and> n' ! 2 = (str ''next'', PInt 2)"
    apply (rule exI[of _ ps], rule exI[of _ st], rule exI[of _ ns'], rule exI[of _ n'])
    using o e k f0 f2 by simp
  from node_frame[OF example_transform example_graph_lookup example_nodes_lookup i(2) n(2)]
  obtain ps2 st2 ns2 n2 where
    o2: "example_out = PDict [(str ''prompts'', PList ps2),
                             (str ''graph'', PDict (st2 @ [(str ''nodes'', PList ns2)]))]"
    and e2: "ns2 ! 4 = PDict n2"
    and a2: "dict_lookup [(str ''id'', str ''n5'')] (str ''question'') = None
              \<longrightarrow> n2 = [(str ''id'', str ''n5'')]"
    by (elim exE conjE)
  from a2 have "n2 = [(str ''id'', str ''n5'')]"
    by simp
  with o2 e2 have b: "\<exists>ps st ns'.
         example_out = PDict [(str ''prompts'', PList ps),
                              (str ''graph'', PDict (st @ [(str ''nodes'', PList ns')]))]
       \<and> ns' ! 4 = PDict [(str ''id'', str ''n5'')]"
    by (intro exI[of _ ps2] exI[of _ st2] exI[of _ ns2]) simp
  from example_transform a b show ?thesis by (intro conjI)
qed

text \<open>
  Claim C7. When \<open>transform\<close> returns, the input is a mapping whose \<open>graph\<close> (the empty
  mapping when absent) is a mapping \<open>g\<close>, and the output is the mapping with exactly the
  keys \<open>prompts\<close> and \<open>graph\<close>, in this order; the output graph starts with \<open>startId\<close>
  and the input's value for it exactly when \<open>g\<close> has that key (also when the value is
  \<open>None\<close>), and always ends with a \<open>nodes\<close> list.
\<close>

theorem document_assembly:
  assumes "transform data = Inr out"
  shows "\<exists>d g ps ns.
           data = PDict d
         \<and> get_or d ''graph'' (PDict []) = PDict g
         \<and> out = PDict [(str ''prompts'', PList ps),
                        (str ''graph'',
                         PDict ((case dict_lookup g (str ''startId'') of
                                   None \<Rightarrow> []
                                 | Some v \<Rightarrow> [(str ''startId'', v)])
                                @ [(str ''nodes'', PList ns)]))]"
proof -
  from assms obtain d g ps' ns' where
    "data = PDict d" "get_or d ''graph'' (PDict []) = PDict g"
    "out = PDict [(str ''prompts'', PList ps'),
                  (str ''graph'', PDict ((case dict_lookup g (str ''startId'') of
                                           None \<Rightarrow> [] | Some v \<Rightarrow> [(str ''startId'', v)])
                                         @ [(str ''nodes'', PList ns')]))]"
    by (rule transform_InrD)
  then show ?thesis
    by (intro exI[of _ d] exI[of _ g] exI[of _ ps'] exI[of _ ns']) simp
qed

theorem document_assembly_witness:
  "transform (PDict example_fields) = Inr example_out
   \<and> transform (PDict [(str ''graph'', PDict [(str ''x'', PInt 1)])])
       = Inr (PDict [(str ''prompts'', PList []), (str ''graph'', PDict [(str ''nodes'', PList [])])])
   \<and> (\<exists>g ps ns.
         get_or example_fields ''graph'' (PDict []) = PDict g
       \<and> dict_lookup g (str ''startId'') = Some PNone
       \<and> example_out = PDict [(str ''prompts'', PList ps),
                              (str ''graph'', PDict ([(str ''startId'', PNone)]
                                                     @ [(str ''nodes'', PList ns)]))])"
proof -
  have t: "transform (PDict [(str ''graph'', PDict [(str ''x'', PInt 1)])])
       = Inr (PDict [(str ''prompts'', PList []), (str ''graph'', PDict [(str ''nodes'', PList [])])])"
    by (simp add: transform_def)
  from document_assembly[OF example_transform] obtain d g ps ns where
    d: "PDict example_fields = PDict d" and g: "get_or d ''graph'' (PDict []) = PDict g"
    and o: "example_out = PDict [(str ''prompts'', PList ps),
                        (str ''graph'',
                         PDict ((case dict_lookup g (str ''startId'') of
                                   None \<Rightarrow> []
                                 | Some v \<Rightarrow> [(str ''startId'', v)])
                                @ [(str ''nodes'', PList ns)]))]"
    by (elim exE conjE)
  from d g have g': "g = example_graph"
    by (simp add: get_or_def example_graph_lookup)
  have s: "dict_lookup g (str ''startId'') = Some PNone"
    unfolding g' by (simp add: example_graph_def)
  have "\<exists>g ps ns.
         get_or example_fields ''graph'' (PDict []) = PDict g
       \<and> dict_lookup g (str ''startId'') = Some PNone
       \<and> example_out = PDict [(str ''prompts'', PList ps),
                              (str ''graph'', PDict ([(str ''startId'', PNone)]
                                                     @ [(str ''nodes'', PList ns)]))]"
    apply (rule exI[of _ g], rule exI[of _ ps], rule exI[of _ ns])
    using d g o s by simp
  with example_transform t show ?thesis by (intro conjI)
qed

text \<open>
  Claim C9. When \<open>transform\<close> returns, there is one output prompt per input prompt, and
  every output prompt is a mapping with exactly the two keys \<open>nodeId\<close> and \<open>prompt\<close>, in
  this order, whatever other keys the input prompt has.
\<close>

theorem prompt_keys:
  assumes "transform data = Inr out"
  shows "\<exists>d ps_in ps g.
           data = PDict d
         \<and> py_iter (get_or d ''prompts'' (PList [])) = Inr ps_in
         \<and> out = PDict [(str ''prompts'', PList ps), (str ''graph'', g)]
         \<and> length ps = length ps_in
         \<and> list_all (\<lambda>p. \<exists>a b. p = PDict [(str ''nodeId'', a), (str ''prompt'', b)]) ps"
proof -
  from assms obtain d ps_in ps where
    d: "data = PDict d" and it: "py_iter (get_or d ''prompts'' (PList [])) = Inr ps_in"
    and m: "map_exn prompt_body ps_in = Inr ps"
    and o: "\<exists>g. out = PDict [(str ''prompts'', PList ps), (str ''graph'', g)]"
    by (rule transform_InrD) blast
  from o obtain g where g: "out = PDict [(str ''prompts'', PList ps), (str ''graph'', g)]" ..
  from map_exn_Inr[OF m] have l: "length ps = length ps_in"
    and b: "\<forall>i<length ps_in. prompt_body (ps_in ! i) = Inr (ps ! i)"
    by simp_all
  have "\<exists>a b. ps ! i = PDict [(str ''nodeId'', a), (str ''prompt'', b)]" if "i < length ps" for i
  proof -
    from that l b have "prompt_body (ps_in ! i) = Inr (ps ! i)" by simp
    then show ?thesis by (rule prompt_body_InrD) blast
  qed
  then have "list_all (\<lambda>p. \<exists>a b. p = PDict [(str ''nodeId'', a), (str ''prompt'', b)]) ps"
    by (simp add: list_all_length)
  with d it g l show ?thesis
    by (intro exI[of _ d] exI[of _ ps_in] exI[of _ ps] exI[of _ g]) simp
qed

theorem prompt_keys_witness:
  "dict_lookup example_fields (str ''prompts'') =
     Some (PList [PDict [(str ''nodeId'', str ''n1''),
                         (str ''prompt'', PStr Plain (lit ''Hello'' @ [CR, LF] @ lit ''World'' @ [LF, LF])),
                         (str ''lang'', str ''en'')],
                  PDict []])
   \<and> (\<exists>ps g. example_out = PDict [(str ''prompts'', PList ps), (str ''graph'', g)]
         \<and> length ps = 2
         \<and> list_all (\<lambda>p. \<exists>a b. p = PDict [(str ''nodeId'', a), (str ''prompt'', b)]) ps)"
proof -
  from prompt_keys[OF example_transform] obtain d ps_in ps g where
    d: "PDict example_fields = PDict d"
    and it: "py_iter (get_or d ''prompts'' (PList [])) = Inr ps_in"
    and o: "example_out = PDict [(str ''prompts'', PList ps), (str ''graph'', g)]"
    and l: "length ps = length ps_in"
    and a: "list_all (\<lambda>p. \<exists>a b. p = PDict [(str ''nodeId'', a), (str ''prompt'', b)]) ps"
    by (elim exE conjE)
  from d it have "ps_in = example_prompts"
    by (simp add: get_or_def example_prompts_lookup)
  with l have l2: "length ps = 2"
    by (simp add: example_prompts_def)
  have "\<exists>ps g. example_out = PDict [(str ''prompts'', PList ps), (str ''graph'', g)]
         \<and> length ps = 2
         \<and> list_all (\<lambda>p. \<exists>a b. p = PDict [(str ''nodeId'', a), (str ''prompt'', b)]) ps"
    using o l2 a by (intro exI[of _ ps] exI[of _ g] conjI)
  then show ?thesis
    by (simp add: example_prompts_lookup example_prompts_def)
qed

text \<open>
  Claim C10. A node whose question is a plain string of at most 40 characters that
  contains a CR and no LF is short, so the node is emitted as it is: the question is the
  same plain string, still containing the CR, and differs from its normalised text.
\<close>

theorem short_cr_question_unchanged:
  assumes "transform (PDict d) = Inr out"
    and "dict_lookup d (str ''graph'') = Some (PDict g)"
    and "dict_lookup g (str ''nodes'') = Some (PList ns)"
    and "i < length ns" and "ns ! i = PDict n"
    and "dict_lookup n (str ''question'') = Some (PStr Plain q)"
    and "length q \<le> 40" and "CR \<in> set q" and "LF \<notin> set q"
  shows "\<exists>ps st ns'.
           out = PDict [(str ''prompts'', PList ps),
                        (str ''graph'', PDict (st @ [(str ''nodes'', PList ns')]))]
         \<and> length ns' = length ns
         \<and> ns' ! i = PDict n
         \<and> is_short_plain_question q
         \<and> normalize q \<noteq> q"
proof -
  have s: "is_short_plain_question q"
    using assms(7,9) by (simp add: short_plain_iff)
  from assms(8) have ne: "length q \<noteq> 0" by auto
  have b: "node_body (PDict n) = Inr (PDict n)"
    using assms(6) s ne by (simp add: node_body_dict setitem_same)
  have "CR \<notin> set (normalize q)"
    using rstrip_subset[of "[LF]" "eol_to_lf q"] eol_no_CR[of q] by (auto simp: replace_eol)
  with assms(8) have nq: "normalize q \<noteq> q" by metis
  from transform_node[OF assms(1-4)] obtain ps st ns' where
    o: "out = PDict [(str ''prompts'', PList ps),
                        (str ''graph'', PDict (st @ [(str ''nodes'', PList ns')]))]
        \<and> length ns' = length ns \<and> node_body (ns ! i) = Inr (ns' ! i)"
    by (elim exE)
  from o b assms(5) have "ns' ! i = PDict n" by simp
  with o s nq show ?thesis
    by (intro exI[of _ ps] exI[of _ st] exI[of _ ns']) simp
qed

theorem short_cr_question_unchanged_witness:
  "transform (PDict example_fields) = Inr example_out
   \<and> (\<exists>ps st ns'.
         example_out = PDict [(str ''prompts'', PList ps),
                              (str ''graph'', PDict (st @ [(str ''nodes'', PList ns')]))]
       \<and> ns' ! 5 = PDict [(str ''question'', PStr Plain (lit ''a'' @ [CR] @ lit ''b''))]
       \<and> normalize (lit ''a'' @ [CR] @ lit ''b'') \<noteq> lit ''a'' @ [CR] @ lit ''b'')"
proof -
  have i: "5 < length example_nodes"
    by (simp add: example_nodes_def)
  have n: "example_nodes ! 5 = PDict [(str ''question'', PStr Plain (lit ''a'' @ [CR] @ lit ''b''))]"
    by (simp add: example_nodes_def)
  have q: "dict_lookup [(str ''question'', PStr Plain (lit ''a'' @ [CR] @ lit ''b''))] (str ''question'')
             = Some (PStr Plain (lit ''a'' @ [CR] @ lit ''b''))"
    by simp
  have c: "length (lit ''a'' @ [CR] @ lit ''b'') \<le> 40" "CR \<in> set (lit ''a'' @ [CR] @ lit ''b'')"
    "LF \<notin> set (lit ''a'' @ [CR] @ lit ''b'')"
    by (simp_all add: lit_def)
  from short_cr_question_unchanged[OF example_transform example_graph_lookup
      example_nodes_lookup i n q c]
  obtain ps st ns' where
    "example_out = PDict [(str ''prompts'', PList ps),
                              (str ''graph'', PDict (st @ [(str ''nodes'', PList ns')]))]"
    "ns' ! 5 = PDict [(str ''question'', PStr Plain (lit ''a'' @ [CR] @ lit ''b''))]"
    "normalize (lit ''a'' @ [CR] @ lit ''b'') \<noteq> lit ''a'' @ [CR] @ lit ''b''"
    by (elim exE conjE)
  then have "\<exists>ps st ns'.
         example_out = PDict [(str ''prompts'', PList ps),
                              (str ''graph'', PDict (st @ [(str ''nodes'', PList ns')]))]
       \<and> ns' ! 5 = PDict [(str ''question'', PStr Plain (lit ''a'' @ [CR] @ lit ''b''))]
       \<and> normalize (lit ''a'' @ [CR] @ lit ''b'') \<noteq> lit ''a'' @ [CR] @ lit ''b''"
    by (intro exI[of _ ps] exI[of _ st] exI[of _ ns'] conjI)
  with example_transform show ?thesis by (intro conjI)
qed

section \<open>The claim about the driver\<close>





end
